theory Spec2Isabelle
  imports Complex_Main "HOL-Library.Word"
begin

section \<open>The Go values the cache works on\<close>

text \<open>
  A \<^verbatim>\<open>[]byte\<close> and a Go \<^verbatim>\<open>string\<close> are both byte sequences, and the
  conversions \<^verbatim>\<open>string(b)\<close> and \<^verbatim>\<open>[]byte(s)\<close> copy the bytes unchanged, so both
  are \<^typ>\<open>string\<close> here. A nil slice and an empty slice are both \<open>[]\<close>: the code only
  takes their length or ranges over them. \<^verbatim>\<open>int64\<close> is \<^typ>\<open>64 word\<close>, compared with
  the signed orders \<open><s\<close> and \<open><=s\<close>.
\<close>

type_synonym bytes = string
type_synonym int64 = "64 word"

text \<open>
  \<^verbatim>\<open>time.Time\<close> is an instant, counted here in nanoseconds from the zero value
  \<^verbatim>\<open>time.Time{}\<close>; \<^verbatim>\<open>time.Duration\<close> is a number of nanoseconds. The clock reading
  \<^verbatim>\<open>time.Now()\<close> is an argument \<open>now\<close> of every operation that reads it.
  \<^verbatim>\<open>Duration.Seconds()\<close> is the number of seconds as a real number: the code only compares
  it with 0, and its rounding to \<^verbatim>\<open>float64\<close> keeps the sign and the zero.
\<close>

type_synonym Time = int
type_synonym Duration = int

definition IsZero :: "Time \<Rightarrow> bool" where
  "IsZero t = (t = 0)"

definition After :: "Time \<Rightarrow> Time \<Rightarrow> bool" where
  "After t u = (u < t)"

definition Add :: "Time \<Rightarrow> Duration \<Rightarrow> Time" where
  "Add t d = t + d"

definition Seconds :: "Duration \<Rightarrow> real" where
  "Seconds d = real_of_int d / 1000000000"

text \<open>The errors of the package: the sentinels the code compares with, and made errors.\<close>

datatype error =
    ErrCacheMiss
  | RedisNil
  | ErrBadPattern
  | ErrorString string
  | RuntimePanic

fun Error :: "error \<Rightarrow> string" where
  "Error ErrCacheMiss = ''memcache: cache miss''"
| "Error RedisNil = ''redis: nil''"
| "Error ErrBadPattern = ''syntax error in pattern''"
| "Error (ErrorString s) = s"
| "Error RuntimePanic = ''runtime error: slice bounds out of range''"

subsection \<open>\<^verbatim>\<open>strings.Split(s, ",")\<close> and \<^verbatim>\<open>strings.Join(xs, ",")\<close>\<close>

fun Split :: "string \<Rightarrow> string list" where
  "Split [] = [ [] ]"
| "Split (c # cs) =
     (if c = CHR '','' then [] # Split cs
      else (case Split cs of w # ws \<Rightarrow> (c # w) # ws | [] \<Rightarrow> [ [c] ]))"

fun Join :: "string list \<Rightarrow> string" where
  "Join [] = []"
| "Join [x] = x"
| "Join (x # y # ys) = x @ CHR '','' # Join (y # ys)"

text \<open>
  A slice expression \<^verbatim>\<open>xs[lo:hi]\<close> panics unless \<open>lo \<le> hi \<le> cap xs\<close>; the slices
  it is applied to come from \<^verbatim>\<open>strings.Split\<close>, whose capacity is their length.
\<close>

definition slice :: "'a list \<Rightarrow> int \<Rightarrow> int \<Rightarrow> error + 'a list" where
  "slice xs lo hi =
     (if 0 \<le> lo \<and> lo \<le> hi \<and> hi \<le> int (length xs)
      then Inr (take (nat hi - nat lo) (drop (nat lo) xs))
      else Inl RuntimePanic)"

section \<open>The in-process backend (memory_cache.go)\<close>

record CacheItem =
  val :: bytes
  expiresAt :: Time

record MemoryCache =
  items :: "string \<rightharpoonup> CacheItem"

definition NewMemoryCache :: MemoryCache where
  "NewMemoryCache = \<lparr>items = Map.empty\<rparr>"

definition Store :: "Time \<Rightarrow> MemoryCache \<Rightarrow> string \<Rightarrow> bytes \<Rightarrow> Duration \<Rightarrow> error option \<times> MemoryCache" where
  "Store now m key v exp' =
     (let expAt = Add now exp'
      in (None, m\<lparr>items := (items m)(key \<mapsto> \<lparr>val = v, expiresAt = expAt\<rparr>)\<rparr>))"

definition StoreWithoutTTL :: "MemoryCache \<Rightarrow> string \<Rightarrow> bytes \<Rightarrow> error option \<times> MemoryCache" where
  "StoreWithoutTTL m key v =
     (None, m\<lparr>items := (items m)(key \<mapsto> \<lparr>val = v, expiresAt = 0\<rparr>)\<rparr>)"

definition Get :: "Time \<Rightarrow> MemoryCache \<Rightarrow> string \<Rightarrow> (bytes \<times> bool \<times> error option) \<times> MemoryCache" where
  "Get now m key =
     (case items m key of
        None \<Rightarrow> (([], False, None), m)
      | Some item \<Rightarrow>
          if \<not> IsZero (expiresAt item) \<and> After now (expiresAt item)
          then (([], False, None), m\<lparr>items := (items m)(key := None)\<rparr>)
          else ((val item, True, None), m))"

definition Delete :: "MemoryCache \<Rightarrow> string \<Rightarrow> error option \<times> MemoryCache" where
  "Delete m key = (None, m\<lparr>items := (items m)(key := None)\<rparr>)"

definition LPush :: "MemoryCache \<Rightarrow> string \<Rightarrow> bytes \<Rightarrow> error option \<times> MemoryCache" where
  "LPush m key v =
     (let values =
            (case items m key of
               None \<Rightarrow> []
             | Some item \<Rightarrow>
                 (let vs = Split (val item)
                  in if length vs = 1 \<and> hd vs = [] then [] else vs));
          values = v # values
      in (None, m\<lparr>items := (items m)(key \<mapsto> \<lparr>val = Join values, expiresAt = 0\<rparr>)\<rparr>))"

definition LRange :: "MemoryCache \<Rightarrow> string \<Rightarrow> int64 \<Rightarrow> int64 \<Rightarrow> error + string list" where
  "LRange m key start end' =
     (case items m key of
        None \<Rightarrow> Inr []
      | Some item \<Rightarrow>
          (let values = Split (val item)
           in if length values = 1 \<and> hd values = [] then Inr []
              else
                (let len = (word_of_nat (length values) :: int64);
                     start = (if start <s 0
                              then (let s = len + start in if s <s 0 then 0 else s)
                              else start);
                     end' = (if end' <s 0
                            then (let e = len + end' in if e <s 0 then 0 else e)
                            else end');
                     end' = (if len <=s end' then len - 1 else end')
                 in if end' <s start then Inr []
                    else slice values (sint start) (sint (end' + 1)))))"

definition LTrim :: "MemoryCache \<Rightarrow> string \<Rightarrow> int64 \<Rightarrow> int64 \<Rightarrow> error option \<times> MemoryCache" where
  "LTrim m key start end' =
     (case LRange m key start end' of
        Inl err \<Rightarrow> (Some err, m)
      | Inr values \<Rightarrow>
          if length values = 0 then (None, m\<lparr>items := (items m)(key := None)\<rparr>)
          else (None, m\<lparr>items := (items m)(key \<mapsto> \<lparr>val = Join values, expiresAt = 0\<rparr>)\<rparr>))"

text \<open>
  The two counting loops of \<^verbatim>\<open>LRem\<close>. \<open>LRem_first\<close> ranges over the values from the
  head and appends what it keeps; \<open>LRem_last\<close> is given the values from the last index
  down to 0 and puts what it keeps in front of the result. \<open>removed\<close> and \<open>count\<close> are
  \<^verbatim>\<open>int64\<close>.
\<close>

fun LRem_first :: "int64 \<Rightarrow> string \<Rightarrow> string list \<Rightarrow> int64 \<Rightarrow> string list \<Rightarrow> string list" where
  "LRem_first count targetValue [] removed result = result"
| "LRem_first count targetValue (v # vs) removed result =
     (if v = targetValue \<and> removed <s count
      then LRem_first count targetValue vs (removed + 1) result
      else LRem_first count targetValue vs removed (result @ [v]))"

fun LRem_last :: "int64 \<Rightarrow> string \<Rightarrow> string list \<Rightarrow> int64 \<Rightarrow> string list \<Rightarrow> string list" where
  "LRem_last count targetValue [] removed result = result"
| "LRem_last count targetValue (v # vs) removed result =
     (if v = targetValue \<and> removed <s count
      then LRem_last count targetValue vs (removed + 1) result
      else LRem_last count targetValue vs removed (v # result))"

definition LRem :: "MemoryCache \<Rightarrow> string \<Rightarrow> int64 \<Rightarrow> bytes \<Rightarrow> error option \<times> MemoryCache" where
  "LRem m key count v =
     (case items m key of
        None \<Rightarrow> (None, m)
      | Some item \<Rightarrow>
          (let values = Split (val item)
           in if length values = 1 \<and> hd values = [] then (None, m)
              else
                (let targetValue = v;
                     result =
                       (if 0 <s count then LRem_first count targetValue values 0 []
                        else if count <s 0
                        then LRem_last (- count) targetValue (rev values) 0 []
                        else filter (\<lambda>x. x \<noteq> targetValue) values)
                 in if length result = 0
                    then (None, m\<lparr>items := (items m)(key := None)\<rparr>)
                    else (None, m\<lparr>items := (items m)
                                  (key \<mapsto> \<lparr>val = Join result, expiresAt = 0\<rparr>)\<rparr>))))"

subsection \<open>Counters: \<^verbatim>\<open>int64ToBytes\<close> and \<^verbatim>\<open>bytesToInt64\<close>\<close>

text \<open>
  \<^verbatim>\<open>int64ToBytes\<close> is \<^verbatim>\<open>fmt.Sprintf("%d", n)\<close>: the decimal digits, after a minus
  sign for a negative number.
\<close>

definition digit :: "nat \<Rightarrow> char" where
  "digit d = ''0123456789'' ! d"

function decimal :: "nat \<Rightarrow> string" where
  "decimal n = (if n < 10 then [digit n] else decimal (n div 10) @ [digit (n mod 10)])"
  by pat_completeness auto
termination
  by (relation "measure id") auto

declare decimal.simps [simp del]

definition int64ToBytes :: "int64 \<Rightarrow> bytes" where
  "int64ToBytes n =
     (if sint n < 0 then CHR ''-'' # decimal (nat (- sint n)) else decimal (nat (sint n)))"

text \<open>
  \<^verbatim>\<open>bytesToInt64\<close> is \<^verbatim>\<open>fmt.Sscanf(string(b), "%d", &n)\<close> with the error dropped, so
  \<open>n\<close> stays 0 when the scan fails. The scan, on bytes below 128: it skips spaces and
  fails at a newline, takes a sign, then takes the longest run of the characters
  \<^verbatim>\<open>0123456789_\<close>, which must not be empty, and gives sign and run to
  \<^verbatim>\<open>strconv.ParseInt(tok, 10, 64)\<close>, which fails on an underscore and outside the range
  of \<^verbatim>\<open>int64\<close>. What follows the run is not read.
\<close>

definition isSpace :: "char \<Rightarrow> bool" where
  "isSpace c = ((9 \<le> (of_char c :: nat) \<and> (of_char c :: nat) \<le> 13) \<or> c = CHR '' '')"

fun SkipSpace :: "string \<Rightarrow> error + string" where
  "SkipSpace [] = Inr []"
| "SkipSpace (c # cs) =
     (if c = CHR 0x0A then Inl (ErrorString ''unexpected newline'')
      else if isSpace c then SkipSpace cs
      else Inr (c # cs))"

definition isDigit :: "char \<Rightarrow> bool" where
  "isDigit c = (48 \<le> (of_char c :: nat) \<and> (of_char c :: nat) \<le> 57)"

fun ParseUint :: "string \<Rightarrow> int \<Rightarrow> error + int" where
  "ParseUint [] n = Inr n"
| "ParseUint (c # cs) n =
     (if isDigit c then ParseUint cs (n * 10 + (int (of_char c) - 48))
      else Inl (ErrorString ''invalid syntax''))"

definition ParseInt :: "bool \<Rightarrow> string \<Rightarrow> error + int64" where
  "ParseInt neg ds =
     (case ParseUint ds 0 of
        Inl err \<Rightarrow> Inl err
      | Inr un \<Rightarrow>
          if \<not> neg \<and> 2 ^ 63 \<le> un then Inl (ErrorString ''value out of range'')
          else if neg \<and> 2 ^ 63 < un then Inl (ErrorString ''value out of range'')
          else Inr (if neg then - word_of_int un else word_of_int un))"

definition Sscanf_d :: "string \<Rightarrow> error + int64" where
  "Sscanf_d s =
     (case SkipSpace s of
        Inl err \<Rightarrow> Inl err
      | Inr s1 \<Rightarrow>
          if s1 = [] then Inl (ErrorString ''unexpected EOF'')
          else
            (let neg = (hd s1 = CHR ''-'');
                 s2 = (if hd s1 = CHR ''+'' \<or> hd s1 = CHR ''-'' then tl s1 else s1);
                 tok = takeWhile (\<lambda>c. isDigit c \<or> c = CHR ''_'') s2
             in if s2 = [] then Inl (ErrorString ''unexpected EOF'')
                else if tok = [] then Inl (ErrorString ''expected integer'')
                else ParseInt neg tok))"

definition bytesToInt64 :: "bytes \<Rightarrow> int64" where
  "bytesToInt64 b = (case Sscanf_d b of Inl err \<Rightarrow> 0 | Inr n \<Rightarrow> n)"

definition Increment :: "MemoryCache \<Rightarrow> string \<Rightarrow> (int64 \<times> error option) \<times> MemoryCache" where
  "Increment m key =
     (let v = (case items m key of None \<Rightarrow> 0 | Some item \<Rightarrow> bytesToInt64 (val item));
          v = v + 1
      in ((v, None),
          m\<lparr>items := (items m)(key \<mapsto> \<lparr>val = int64ToBytes v, expiresAt = 0\<rparr>)\<rparr>))"

definition IncrementWithTTL :: "Time \<Rightarrow> MemoryCache \<Rightarrow> string \<Rightarrow> Duration \<Rightarrow> (int64 \<times> error option) \<times> MemoryCache" where
  "IncrementWithTTL now m key exp' =
     (let v = (case items m key of None \<Rightarrow> 0 | Some item \<Rightarrow> bytesToInt64 (val item));
          v = v + 1
      in ((v, None),
          m\<lparr>items := (items m)(key \<mapsto> \<lparr>val = int64ToBytes v, expiresAt = Add now exp'\<rparr>)\<rparr>))"

subsection \<open>\<^verbatim>\<open>KeysByPattern\<close>\<close>

text \<open>
  \<^verbatim>\<open>filepath.Match\<close> belongs to the Go library, so the matcher is the argument
  \<open>Match\<close>: for a pattern and a name it answers whether the name matches, or fails with
  \<^verbatim>\<open>ErrBadPattern\<close>. Go ranges over a map in an order that a run chooses; \<open>keys\<close> is
  the order of this run, a list of the stored keys without repetition.
\<close>

definition range_order :: "MemoryCache \<Rightarrow> string list \<Rightarrow> bool" where
  "range_order m keys = (distinct keys \<and> set keys = dom (items m))"

fun KeysByPattern_loop :: "(string \<Rightarrow> string \<Rightarrow> error + bool) \<Rightarrow> string \<Rightarrow> string list \<Rightarrow> string list \<Rightarrow> error + string list" where
  "KeysByPattern_loop Match pattern [] matches = Inr matches"
| "KeysByPattern_loop Match pattern (key # keys) matches =
     (case Match pattern key of
        Inl err \<Rightarrow> Inl (ErrorString (''invalid pattern: '' @ Error err))
      | Inr matched \<Rightarrow>
          KeysByPattern_loop Match pattern keys (if matched then matches @ [key] else matches))"

definition KeysByPattern :: "(string \<Rightarrow> string \<Rightarrow> error + bool) \<Rightarrow> string list \<Rightarrow> MemoryCache \<Rightarrow> string \<Rightarrow> error + string list" where
  "KeysByPattern Match keys m pattern = KeysByPattern_loop Match pattern keys []"

text \<open>The answer of the matcher to a malformed pattern, for every name.\<close>

definition refusing :: "string \<Rightarrow> string \<Rightarrow> error + bool" where
  "refusing pattern name = Inl ErrBadPattern"

section \<open>The object-cache backend (memcache.go)\<close>

text \<open>
  The memcache client is outside the repository. What the backend reads from it is the
  answer of \<^verbatim>\<open>client.Get(key)\<close>, an item or an error, \<^verbatim>\<open>memcache.ErrCacheMiss\<close> for
  an absent key: \<open>client\<close> gives that answer for every key.
\<close>

record Item =
  Key :: string
  Value :: bytes
  Expiration :: "32 word"

type_synonym memcache_Client = "string \<Rightarrow> error + Item"

definition MemcacheRepo_Get :: "memcache_Client \<Rightarrow> string \<Rightarrow> bytes \<times> bool \<times> error option" where
  "MemcacheRepo_Get client key =
     (case client key of
        Inl err \<Rightarrow> if err = ErrCacheMiss then ([], False, None) else ([], False, Some err)
      | Inr item \<Rightarrow> (Value item, True, None))"

definition MemcacheRepo_LRange :: "memcache_Client \<Rightarrow> string \<Rightarrow> int64 \<Rightarrow> int64 \<Rightarrow> error + string list" where
  "MemcacheRepo_LRange client key start end' =
     (case client key of
        Inl err \<Rightarrow> if err = ErrCacheMiss then Inr [] else Inl err
      | Inr item \<Rightarrow>
          (let values = Split (Value item)
           in if length values = 1 \<and> hd values = [] then Inr []
              else
                (let len = (word_of_nat (length values) :: int64);
                     start = (if start <s 0
                              then (let s = len + start in if s <s 0 then 0 else s)
                              else start);
                     end' = (if end' <s 0
                            then (let e = len + end' in if e <s 0 then 0 else e)
                            else end');
                     end' = (if len <=s end' then len - 1 else end')
                 in if end' <s start then Inr []
                    else slice values (sint start) (sint (end' + 1)))))"

section \<open>The key-value backend and the inert backend: \<^verbatim>\<open>Get\<close>\<close>

text \<open>
  \<open>RedisCache_Get\<close> is given the answer of \<^verbatim>\<open>client.Get(ctx, key).Bytes()\<close>, the bytes
  or an error, \<^verbatim>\<open>redis.Nil\<close> for an absent key.
\<close>

definition RedisCache_Get :: "(string \<Rightarrow> error + bytes) \<Rightarrow> string \<Rightarrow> bytes \<times> bool \<times> error option" where
  "RedisCache_Get client key =
     (case client key of
        Inl err \<Rightarrow> if err = RedisNil then ([], False, None) else ([], False, Some err)
      | Inr v \<Rightarrow> (v, True, None))"

definition NocacheRepo_Get :: "string \<Rightarrow> bytes \<times> bool \<times> error option" where
  "NocacheRepo_Get key = ([], False, None)"

section \<open>The cache-aside wrapper (wrapper.go)\<close>

text \<open>
  The three methods of the interface \<^verbatim>\<open>CacheRepo\<close> that the wrapper calls, each from
  the backend's state to its results and the state it leaves.
\<close>

record 's CacheRepo =
  repo_Get :: "string \<Rightarrow> 's \<Rightarrow> (bytes \<times> bool \<times> error option) \<times> 's"
  repo_Store :: "string \<Rightarrow> bytes \<Rightarrow> Duration \<Rightarrow> 's \<Rightarrow> error option \<times> 's"
  repo_StoreWithoutTTL :: "string \<Rightarrow> bytes \<Rightarrow> 's \<Rightarrow> error option \<times> 's"

definition NocacheRepo :: "unit CacheRepo" where
  "NocacheRepo =
     \<lparr>repo_Get = (\<lambda>key s. (NocacheRepo_Get key, s)),
      repo_Store = (\<lambda>key v exp' s. (None, s)),
      repo_StoreWithoutTTL = (\<lambda>key v s. (None, s))\<rparr>"

definition MemoryCacheRepo :: "Time \<Rightarrow> MemoryCache CacheRepo" where
  "MemoryCacheRepo now =
     \<lparr>repo_Get = (\<lambda>key m. Get now m key),
      repo_Store = (\<lambda>key v exp' m. Store now m key v exp'),
      repo_StoreWithoutTTL = (\<lambda>key v m. StoreWithoutTTL m key v)\<rparr>"

text \<open>
  What a call of the wrapper does outside itself, in order: the calls on the backend, on
  the two functions of the caller, and on the JSON encoder and decoder.
\<close>

datatype ('d, 'id) call =
    Call_Get string
  | Call_Unmarshal bytes
  | Call_fnCacheable 'id
  | Call_Marshal 'd
  | Call_fnGetTtl 'd
  | Call_Store string bytes Duration
  | Call_StoreWithoutTTL string bytes

text \<open>
  The result of a call of the wrapper: the two returned values (\<open>None\<close> is \<^verbatim>\<open>nil\<close>), the
  fields of the record that the deferred function logs when \<^verbatim>\<open>err\<close> is not nil at the
  return, the calls made, and the backend's state.
\<close>

record ('d, 'id, 's) outcome =
  ret_data :: "'d option"
  ret_err :: "error option"
  logged :: "(string \<rightharpoonup> string) option"
  calls :: "('d, 'id) call list"
  backend :: 's

definition deferred :: "(string \<rightharpoonup> string) \<Rightarrow> error option \<Rightarrow> (string \<rightharpoonup> string) option" where
  "deferred entry err =
     (case err of None \<Rightarrow> None | Some e \<Rightarrow> Some (entry(''err'' \<mapsto> Error e)))"

text \<open>
  \<open>Marshal\<close> and \<open>Unmarshal\<close> are \<^verbatim>\<open>json.Marshal\<close> and \<^verbatim>\<open>json.Unmarshal\<close> at the type
  \<^verbatim>\<open>TData\<close>, and \<open>fmtv\<close> is the \<^verbatim>\<open>%v\<close> rendering of an identifier. \<open>from_source\<close> is the
  code after the cache lookup (lines 43 to 73), entered with the calls made so far.
\<close>

definition from_source ::
  "('d \<Rightarrow> error + bytes) \<Rightarrow> 's CacheRepo \<Rightarrow> 'id \<Rightarrow> string \<Rightarrow> (string \<rightharpoonup> string) \<Rightarrow> Duration \<Rightarrow>
   ('id \<Rightarrow> 'd option \<times> error option) \<Rightarrow> ('d, 'id) call list \<Rightarrow> 's \<Rightarrow> ('d, 'id, 's) outcome" where
  "from_source Marshal repo ident key entry exp' fnCacheable cs s =
     (let (dataFromSource, err) = fnCacheable ident;
          cs = cs @ [Call_fnCacheable ident]
      in if err \<noteq> None
         then \<lparr>ret_data = None, ret_err = err,
               logged = deferred (entry(''err_type'' \<mapsto> ''call fnCacheable'')) err,
               calls = cs, backend = s\<rparr>
         else
           (case dataFromSource of
              None \<Rightarrow> \<lparr>ret_data = None, ret_err = None, logged = deferred entry err,
                        calls = cs, backend = s\<rparr>
            | Some d \<Rightarrow>
                if Seconds exp' < 0
                then \<lparr>ret_data = Some d, ret_err = None, logged = deferred entry err,
                      calls = cs, backend = s\<rparr>
                else
                  (case Marshal d of
                     Inl err \<Rightarrow>
                       \<lparr>ret_data = None, ret_err = Some err,
                        logged = deferred (entry(''err_type'' \<mapsto> ''json.Marshal dataFromSource''))
                                   (Some err),
                        calls = cs @ [Call_Marshal d], backend = s\<rparr>
                   | Inr bytesFromSource \<Rightarrow>
                       if Seconds exp' = 0
                       then
                         (let (err, s') = repo_StoreWithoutTTL repo key bytesFromSource s
                          in \<lparr>ret_data = Some d, ret_err = None,
                              logged = deferred (entry(''err_type'' \<mapsto> ''call cache.StoreWithoutTTL'')) err,
                              calls = cs @ [Call_Marshal d, Call_StoreWithoutTTL key bytesFromSource],
                              backend = s'\<rparr>)
                       else
                         (let (err, s') = repo_Store repo key bytesFromSource exp' s
                          in \<lparr>ret_data = Some d, ret_err = None,
                              logged = deferred (entry(''err_type'' \<mapsto> ''call cache.Store'')) err,
                              calls = cs @ [Call_Marshal d, Call_Store key bytesFromSource exp'],
                              backend = s'\<rparr>))))"

definition GetFromCache ::
  "('d \<Rightarrow> error + bytes) \<Rightarrow> (bytes \<Rightarrow> error + 'd) \<Rightarrow> ('id \<Rightarrow> string) \<Rightarrow>
   's CacheRepo \<Rightarrow> 'id \<Rightarrow> string \<Rightarrow> Duration \<Rightarrow> ('id \<Rightarrow> 'd option \<times> error option) \<Rightarrow>
   's \<Rightarrow> ('d, 'id, 's) outcome" where
  "GetFromCache Marshal Unmarshal fmtv repo ident prefixKey exp' fnCacheable s =
     (let key = prefixKey @ '':'' @ fmtv ident;
          entry = [''key'' \<mapsto> key];
          ((bytesFromCache, found, err), s) = repo_Get repo key s;
          cs = [Call_Get key]
      in if found
         then
           (case Unmarshal bytesFromCache of
              Inr data \<Rightarrow>
                \<lparr>ret_data = Some data, ret_err = None, logged = deferred entry None,
                 calls = cs @ [Call_Unmarshal bytesFromCache], backend = s\<rparr>
            | Inl err \<Rightarrow>
                from_source Marshal repo ident key entry exp' fnCacheable
                  (cs @ [Call_Unmarshal bytesFromCache]) s)
         else from_source Marshal repo ident key entry exp' fnCacheable cs s)"

text \<open>
  The same for \<^verbatim>\<open>GetFromCacheWithDynamicTTL\<close>: \<open>from_source_dynamic\<close> is the code after
  the cache lookup (lines 107 to 139).
\<close>

definition from_source_dynamic ::
  "('d \<Rightarrow> error + bytes) \<Rightarrow> 's CacheRepo \<Rightarrow> 'id \<Rightarrow> string \<Rightarrow> (string \<rightharpoonup> string) \<Rightarrow> ('d \<Rightarrow> Duration) \<Rightarrow>
   ('id \<Rightarrow> 'd option \<times> error option) \<Rightarrow> ('d, 'id) call list \<Rightarrow> 's \<Rightarrow> ('d, 'id, 's) outcome" where
  "from_source_dynamic Marshal repo ident key entry fnGetTtl fnCacheable cs s =
     (let (dataFromSource, err) = fnCacheable ident;
          cs = cs @ [Call_fnCacheable ident]
      in if err \<noteq> None
         then \<lparr>ret_data = None, ret_err = err,
               logged = deferred (entry(''err_type'' \<mapsto> ''call fnCacheable'')) err,
               calls = cs, backend = s\<rparr>
         else
           (case dataFromSource of
              None \<Rightarrow> \<lparr>ret_data = None, ret_err = None, logged = deferred entry err,
                        calls = cs, backend = s\<rparr>
            | Some d \<Rightarrow>
                (case Marshal d of
                   Inl err \<Rightarrow>
                     \<lparr>ret_data = None, ret_err = Some err,
                      logged = deferred (entry(''err_type'' \<mapsto> ''json.Marshal dataFromSource''))
                                 (Some err),
                      calls = cs @ [Call_Marshal d], backend = s\<rparr>
                 | Inr bytesFromSource \<Rightarrow>
                     (let exp' = fnGetTtl d;
                          cs = cs @ [Call_Marshal d, Call_fnGetTtl d]
                      in if Seconds exp' < 0
                         then \<lparr>ret_data = Some d, ret_err = None, logged = deferred entry None,
                               calls = cs, backend = s\<rparr>
                         else if Seconds exp' = 0
                         then
                           (let (err, s') = repo_StoreWithoutTTL repo key bytesFromSource s
                            in \<lparr>ret_data = Some d, ret_err = None,
                                logged = deferred (entry(''err_type'' \<mapsto> ''call cache.StoreWithoutTTL'')) err,
                                calls = cs @ [Call_StoreWithoutTTL key bytesFromSource],
                                backend = s'\<rparr>)
                         else
                           (let (err, s') = repo_Store repo key bytesFromSource exp' s
                            in \<lparr>ret_data = Some d, ret_err = None,
                                logged = deferred (entry(''err_type'' \<mapsto> ''call cache.Store'')) err,
                                calls = cs @ [Call_Store key bytesFromSource exp'],
                                backend = s'\<rparr>)))))"

definition GetFromCacheWithDynamicTTL ::
  "('d \<Rightarrow> error + bytes) \<Rightarrow> (bytes \<Rightarrow> error + 'd) \<Rightarrow> ('id \<Rightarrow> string) \<Rightarrow>
   's CacheRepo \<Rightarrow> 'id \<Rightarrow> string \<Rightarrow> ('d \<Rightarrow> Duration) \<Rightarrow> ('id \<Rightarrow> 'd option \<times> error option) \<Rightarrow>
   's \<Rightarrow> ('d, 'id, 's) outcome" where
  "GetFromCacheWithDynamicTTL Marshal Unmarshal fmtv repo ident prefixKey fnGetTtl fnCacheable s =
     (let key = prefixKey @ '':'' @ fmtv ident;
          entry = [''key'' \<mapsto> key];
          ((bytesFromCache, found, err), s) = repo_Get repo key s;
          cs = [Call_Get key]
      in if found
         then
           (case Unmarshal bytesFromCache of
              Inr data \<Rightarrow>
                \<lparr>ret_data = Some data, ret_err = None, logged = deferred entry None,
                 calls = cs @ [Call_Unmarshal bytesFromCache], backend = s\<rparr>
            | Inl err \<Rightarrow>
                from_source_dynamic Marshal repo ident key entry fnGetTtl fnCacheable
                  (cs @ [Call_Unmarshal bytesFromCache]) s)
         else from_source_dynamic Marshal repo ident key entry fnGetTtl fnCacheable cs s)"

subsection \<open>A caller of the wrapper\<close>

text \<open>
  For the examples, the caller's \<^verbatim>\<open>TData\<close> is a \<^verbatim>\<open>float64\<close> that holds a natural number
  or the infinity. \<^verbatim>\<open>json.Marshal\<close> writes the number in decimal digits and fails on the
  infinity with an \<^verbatim>\<open>UnsupportedValueError\<close>; \<^verbatim>\<open>json.Unmarshal\<close> is given on the
  inputs the examples use, the decimal digits and the empty input. The identifiers are
  natural numbers, which \<^verbatim>\<open>%v\<close> renders in decimal.
\<close>

datatype TData = Num nat | PosInf

fun float_Marshal :: "TData \<Rightarrow> error + bytes" where
  "float_Marshal (Num n) = Inr (decimal n)"
| "float_Marshal PosInf = Inl (ErrorString ''json: unsupported value: +Inf'')"

definition float_Unmarshal :: "bytes \<Rightarrow> error + TData" where
  "float_Unmarshal b =
     (if b = [] then Inl (ErrorString ''unexpected end of JSON input'')
      else (case ParseUint b 0 of
              Inl err \<Rightarrow> Inl (ErrorString ''invalid character'')
            | Inr n \<Rightarrow> Inr (Num (nat n))))"

definition fetch_42 :: "nat \<Rightarrow> TData option \<times> error option" where
  "fetch_42 ident = (Some (Num 42), None)"

definition fetch_inf :: "nat \<Rightarrow> TData option \<times> error option" where
  "fetch_inf ident = (Some PosInf, None)"

definition ttl_of :: "TData \<Rightarrow> Duration" where
  "ttl_of d = (case d of Num n \<Rightarrow> int n | PosInf \<Rightarrow> - 1)"


text \<open>A record in the in-process backend under the key \<^verbatim>\<open>test:7\<close>, without expiry.\<close>

definition cached :: "bytes \<Rightarrow> MemoryCache" where
  "cached v = snd (StoreWithoutTTL NewMemoryCache ''test:7'' v)"

text \<open>A backend with the store methods of \<open>repo\<close> whose \<^verbatim>\<open>Get\<close> finds nothing.\<close>

definition missing :: "'s CacheRepo \<Rightarrow> 's CacheRepo" where
  "missing repo = repo\<lparr>repo_Get := (\<lambda>key s. (NocacheRepo_Get key, s))\<rparr>"

text \<open>A memcache server that holds the same record and nothing else.\<close>

definition memcached :: "bytes \<Rightarrow> memcache_Client" where
  "memcached v key =
     (if key = ''test:7'' then Inr \<lparr>Key = key, Value = v, Expiration = 0\<rparr>
      else Inl ErrCacheMiss)"


section \<open>The list operations as the specification words them\<close>

text \<open>
  The stored value splits into elements at the commas, and the empty value is the empty
  list.
\<close>

definition decode :: "bytes \<Rightarrow> string list" where
  "decode v = (if v = [] then [] else Split v)"

text \<open>The list that a key holds: no element when the key is absent.\<close>

definition stored_list :: "MemoryCache \<Rightarrow> string \<Rightarrow> string list" where
  "stored_list m key = (case items m key of None \<Rightarrow> [] | Some item \<Rightarrow> decode (val item))"

text \<open>
  The range algorithm of the specification on mathematical integers: a negative \<open>start\<close>
  becomes \<open>max 0 (length + start)\<close>, a negative \<open>end\<close> becomes \<open>max 0 (length + end)\<close>, an
  \<open>end\<close> of at least the length becomes \<open>length - 1\<close>; the result is empty when
  \<open>start > end\<close>, and the elements from index \<open>start\<close> to index \<open>end\<close>, both included,
  otherwise.
\<close>

definition normalized_range :: "'a list \<Rightarrow> int \<Rightarrow> int \<Rightarrow> 'a list" where
  "normalized_range elements start end' =
     (let len = int (length elements);
          start = (if start < 0 then max 0 (len + start) else start);
          end' = (if end' < 0 then max 0 (len + end') else end');
          end' = (if len \<le> end' then len - 1 else end')
      in if end' < start then []
         else take (nat (end' - start + 1)) (drop (nat start) elements))"

text \<open>
  Removal of the first \<open>n\<close> occurrences of \<open>v\<close> from the head, and of the last \<open>n\<close>
  occurrences from the tail, the other elements keeping their order.
\<close>

fun remove_first :: "nat \<Rightarrow> 'a \<Rightarrow> 'a list \<Rightarrow> 'a list" where
  "remove_first n v [] = []"
| "remove_first n v (x # xs) =
     (if x = v \<and> 0 < n then remove_first (n - 1) v xs else x # remove_first n v xs)"

definition remove_last :: "nat \<Rightarrow> 'a \<Rightarrow> 'a list \<Rightarrow> 'a list" where
  "remove_last n v xs = rev (remove_first n v (rev xs))"

text \<open>A sequence of \<^verbatim>\<open>LPush\<close> calls on one key, the values in the order of the calls.\<close>

fun LPush_all :: "MemoryCache \<Rightarrow> string \<Rightarrow> bytes list \<Rightarrow> MemoryCache" where
  "LPush_all m key [] = m"
| "LPush_all m key (v # vs) = LPush_all (snd (LPush m key v)) key vs"

section \<open>The wrapper: what it returns, calls and logs\<close>

lemma Seconds_less_zero [simp]: "Seconds d < 0 \<longleftrightarrow> d < 0"
  by (simp add: Seconds_def divide_less_0_iff)

lemma Seconds_eq_zero [simp]: "Seconds d = 0 \<longleftrightarrow> d = 0"
  by (simp add: Seconds_def)

lemma from_source_calls:
  "from_source Marshal repo ident key entry exp' fnCacheable cs s =
   (from_source Marshal repo ident key entry exp' fnCacheable [] s)
     \<lparr>calls := cs @ calls (from_source Marshal repo ident key entry exp' fnCacheable [] s)\<rparr>"
  by (simp add: from_source_def Let_def split: prod.splits option.splits sum.splits)

lemma from_source_dynamic_calls:
  "from_source_dynamic Marshal repo ident key entry fnGetTtl fnCacheable cs s =
   (from_source_dynamic Marshal repo ident key entry fnGetTtl fnCacheable [] s)
     \<lparr>calls := cs @ calls (from_source_dynamic Marshal repo ident key entry fnGetTtl fnCacheable [] s)\<rparr>"
  by (simp add: from_source_dynamic_def Let_def split: prod.splits option.splits sum.splits)





lemma from_source_repo:
  "repo_Store repo0 = repo_Store repo \<Longrightarrow> repo_StoreWithoutTTL repo0 = repo_StoreWithoutTTL repo \<Longrightarrow>
   from_source Marshal repo0 ident key entry exp' fnCacheable cs s =
   from_source Marshal repo ident key entry exp' fnCacheable cs s"
  by (simp add: from_source_def Let_def split: prod.splits option.splits sum.splits)

lemma from_source_dynamic_repo:
  "repo_Store repo0 = repo_Store repo \<Longrightarrow> repo_StoreWithoutTTL repo0 = repo_StoreWithoutTTL repo \<Longrightarrow>
   from_source_dynamic Marshal repo0 ident key entry fnGetTtl fnCacheable cs s =
   from_source_dynamic Marshal repo ident key entry fnGetTtl fnCacheable cs s"
  by (simp add: from_source_dynamic_def Let_def split: prod.splits option.splits sum.splits)

lemma from_source_first_call:
  "\<exists>rest. calls (from_source Marshal repo ident key entry exp' fnCacheable cs s) =
     cs @ Call_fnCacheable ident # rest"
  by (simp add: from_source_def Let_def split: prod.splits option.splits sum.splits)

lemma from_source_dynamic_first_call:
  "\<exists>rest. calls (from_source_dynamic Marshal repo ident key entry fnGetTtl fnCacheable cs s) =
     cs @ Call_fnCacheable ident # rest"
  by (simp add: from_source_dynamic_def Let_def split: prod.splits option.splits sum.splits)

lemma GetFromCache_not_found:
  "key = prefixKey @ '':'' @ fmtv ident \<Longrightarrow> repo_Get repo key s = ((b, False, e), s1) \<Longrightarrow>
   GetFromCache Marshal Unmarshal fmtv repo ident prefixKey exp' fnCacheable s =
   from_source Marshal repo ident key [''key'' \<mapsto> key] exp' fnCacheable [Call_Get key] s1"
  by (simp add: GetFromCache_def Let_def)

lemma GetFromCache_found:
  "key = prefixKey @ '':'' @ fmtv ident \<Longrightarrow> repo_Get repo key s = ((b, True, e), s1) \<Longrightarrow>
   GetFromCache Marshal Unmarshal fmtv repo ident prefixKey exp' fnCacheable s =
   (case Unmarshal b of
      Inr data \<Rightarrow>
        \<lparr>ret_data = Some data, ret_err = None, logged = None,
         calls = [Call_Get key, Call_Unmarshal b], backend = s1\<rparr>
    | Inl err \<Rightarrow>
        from_source Marshal repo ident key [''key'' \<mapsto> key] exp' fnCacheable
          [Call_Get key, Call_Unmarshal b] s1)"
  by (simp add: GetFromCache_def Let_def deferred_def split: sum.splits)

lemma GetFromCacheWithDynamicTTL_not_found:
  "key = prefixKey @ '':'' @ fmtv ident \<Longrightarrow> repo_Get repo key s = ((b, False, e), s1) \<Longrightarrow>
   GetFromCacheWithDynamicTTL Marshal Unmarshal fmtv repo ident prefixKey fnGetTtl fnCacheable s =
   from_source_dynamic Marshal repo ident key [''key'' \<mapsto> key] fnGetTtl fnCacheable [Call_Get key] s1"
  by (simp add: GetFromCacheWithDynamicTTL_def Let_def)

lemma GetFromCacheWithDynamicTTL_found:
  "key = prefixKey @ '':'' @ fmtv ident \<Longrightarrow> repo_Get repo key s = ((b, True, e), s1) \<Longrightarrow>
   GetFromCacheWithDynamicTTL Marshal Unmarshal fmtv repo ident prefixKey fnGetTtl fnCacheable s =
   (case Unmarshal b of
      Inr data \<Rightarrow>
        \<lparr>ret_data = Some data, ret_err = None, logged = None,
         calls = [Call_Get key, Call_Unmarshal b], backend = s1\<rparr>
    | Inl err \<Rightarrow>
        from_source_dynamic Marshal repo ident key [''key'' \<mapsto> key] fnGetTtl fnCacheable
          [Call_Get key, Call_Unmarshal b] s1)"
  by (simp add: GetFromCacheWithDynamicTTL_def Let_def deferred_def split: sum.splits)

lemma wrapper_enters_source:
  assumes "key = prefixKey @ '':'' @ fmtv ident"
    and "repo_Get repo key s = ((b, found, ge), s1)" and "found \<longrightarrow> isl (Unmarshal b)"
  shows "GetFromCache Marshal Unmarshal fmtv repo ident prefixKey exp' fnCacheable s =
      from_source Marshal repo ident key [''key'' \<mapsto> key] exp' fnCacheable
        (Call_Get key # (if found then [Call_Unmarshal b] else [])) s1"
    and "GetFromCacheWithDynamicTTL Marshal Unmarshal fmtv repo ident prefixKey fnGetTtl fnCacheable s =
      from_source_dynamic Marshal repo ident key [''key'' \<mapsto> key] fnGetTtl fnCacheable
        (Call_Get key # (if found then [Call_Unmarshal b] else [])) s1"
  using assms
  by (auto simp add: GetFromCache_def GetFromCacheWithDynamicTTL_def Let_def isl_def
      split: sum.splits)





lemma key_test_7: "decimal 7 = ''7''"
  by (simp add: decimal.simps digit_def)

text \<open>
  Claim C4. In both variants of the wrapper, when \<^verbatim>\<open>Get\<close> reports the key as found and the
  bytes deserialize, the deserialized value is returned with a nil error, nothing is
  logged, and the only calls are the \<^verbatim>\<open>Get\<close> and the decoding: the source function is not
  invoked and nothing is stored. When the bytes are found and fail to deserialize, the
  call gives what it gives on a backend \<open>repo0\<close> that reports a miss and is otherwise the
  same: the same values, log and backend state, and the same calls after the \<^verbatim>\<open>Get\<close>,
  the first of which is the call of the source function.
\<close>

theorem hit_skips_source:
  assumes hit: "repo_Get repo (prefixKey @ '':'' @ fmtv ident) s = ((b, True, e), s1)"
    and miss: "repo_Get repo0 (prefixKey @ '':'' @ fmtv ident) s = ((b0, False, None), s1)"
    and st: "repo_Store repo0 = repo_Store repo"
    and sw: "repo_StoreWithoutTTL repo0 = repo_StoreWithoutTTL repo"
  shows "(Unmarshal b = Inr data \<longrightarrow>
            GetFromCache Marshal Unmarshal fmtv repo ident prefixKey exp' fnCacheable s =
              \<lparr>ret_data = Some data, ret_err = None, logged = None,
               calls = [Call_Get (prefixKey @ '':'' @ fmtv ident), Call_Unmarshal b], backend = s1\<rparr>
          \<and> GetFromCacheWithDynamicTTL Marshal Unmarshal fmtv repo ident prefixKey fnGetTtl fnCacheable s =
              \<lparr>ret_data = Some data, ret_err = None, logged = None,
               calls = [Call_Get (prefixKey @ '':'' @ fmtv ident), Call_Unmarshal b], backend = s1\<rparr>)
       \<and> (Unmarshal b = Inl ue \<longrightarrow>
            (\<exists>rest. GetFromCache Marshal Unmarshal fmtv repo0 ident prefixKey exp' fnCacheable s =
                (GetFromCache Marshal Unmarshal fmtv repo ident prefixKey exp' fnCacheable s)
                  \<lparr>calls := Call_Get (prefixKey @ '':'' @ fmtv ident) # Call_fnCacheable ident # rest\<rparr>
              \<and> calls (GetFromCache Marshal Unmarshal fmtv repo ident prefixKey exp' fnCacheable s) =
                  Call_Get (prefixKey @ '':'' @ fmtv ident) # Call_Unmarshal b # Call_fnCacheable ident # rest)
          \<and> (\<exists>rest. GetFromCacheWithDynamicTTL Marshal Unmarshal fmtv repo0 ident prefixKey fnGetTtl fnCacheable s =
                (GetFromCacheWithDynamicTTL Marshal Unmarshal fmtv repo ident prefixKey fnGetTtl fnCacheable s)
                  \<lparr>calls := Call_Get (prefixKey @ '':'' @ fmtv ident) # Call_fnCacheable ident # rest\<rparr>
              \<and> calls (GetFromCacheWithDynamicTTL Marshal Unmarshal fmtv repo ident prefixKey fnGetTtl fnCacheable s) =
                  Call_Get (prefixKey @ '':'' @ fmtv ident) # Call_Unmarshal b # Call_fnCacheable ident # rest))"
proof -
  define key where "key = prefixKey @ '':'' @ fmtv ident"
  define entry where "entry = [''key'' \<mapsto> key]"
  note hit' = hit [folded key_def] and miss' = miss [folded key_def]
  let ?f = "from_source Marshal repo ident key entry exp' fnCacheable"
  let ?g = "from_source_dynamic Marshal repo ident key entry fnGetTtl fnCacheable"
  obtain r1 where r1: "calls (?f [] s1) = Call_fnCacheable ident # r1"
    using from_source_first_call [of Marshal repo ident key entry exp' fnCacheable "[]" s1] by auto
  obtain r2 where r2: "calls (?g [] s1) = Call_fnCacheable ident # r2"
    using from_source_dynamic_first_call [of Marshal repo ident key entry fnGetTtl fnCacheable "[]" s1] by auto
  have f1: "?f [Call_Get key] s1 = (?f [] s1)\<lparr>calls := Call_Get key # Call_fnCacheable ident # r1\<rparr>"
    by (subst from_source_calls) (simp add: r1)
  have f2: "?f [Call_Get key, Call_Unmarshal b] s1 =
              (?f [] s1)\<lparr>calls := Call_Get key # Call_Unmarshal b # Call_fnCacheable ident # r1\<rparr>"
    by (subst from_source_calls) (simp add: r1)
  have g1: "?g [Call_Get key] s1 = (?g [] s1)\<lparr>calls := Call_Get key # Call_fnCacheable ident # r2\<rparr>"
    by (subst from_source_dynamic_calls) (simp add: r2)
  have g2: "?g [Call_Get key, Call_Unmarshal b] s1 =
              (?g [] s1)\<lparr>calls := Call_Get key # Call_Unmarshal b # Call_fnCacheable ident # r2\<rparr>"
    by (subst from_source_dynamic_calls) (simp add: r2)
  show ?thesis
    unfolding key_def [symmetric]
    by (simp add: GetFromCache_found [where fmtv = fmtv and ident = ident, OF key_def hit'] GetFromCache_not_found [where fmtv = fmtv and ident = ident, OF key_def miss']
        GetFromCacheWithDynamicTTL_found [where fmtv = fmtv and ident = ident, OF key_def hit']
        GetFromCacheWithDynamicTTL_not_found [where fmtv = fmtv and ident = ident, OF key_def miss']
        from_source_repo [OF st sw] from_source_dynamic_repo [OF st sw]
        entry_def [symmetric] f1 f2 g1 g2)
qed

theorem hit_skips_source_witness:
  "repo_Get (MemoryCacheRepo 1000) (''test'' @ '':'' @ decimal 7) (cached ''42'') =
     ((''42'', True, None), cached ''42'')
   \<and> float_Unmarshal ''42'' = Inr (Num 42)
   \<and> GetFromCache float_Marshal float_Unmarshal decimal (MemoryCacheRepo 1000) 7 ''test'' 60 fetch_inf (cached ''42'') =
       \<lparr>ret_data = Some (Num 42), ret_err = None, logged = None,
        calls = [Call_Get ''test:7'', Call_Unmarshal ''42''], backend = cached ''42''\<rparr>
   \<and> repo_Get (MemoryCacheRepo 1000) (''test'' @ '':'' @ decimal 7) (cached ''x'') =
     ((''x'', True, None), cached ''x'')
   \<and> float_Unmarshal ''x'' = Inl (ErrorString ''invalid character'')
   \<and> ret_data (GetFromCache float_Marshal float_Unmarshal decimal (MemoryCacheRepo 1000) 7 ''test'' 60 fetch_42 (cached ''x'')) =
       ret_data (GetFromCache float_Marshal float_Unmarshal decimal (missing (MemoryCacheRepo 1000)) 7 ''test'' 60 fetch_42 (cached ''x''))"
proof -
  have h1: "repo_Get (MemoryCacheRepo 1000) (''test'' @ '':'' @ decimal 7) (cached ''42'') =
     ((''42'', True, None), cached ''42'')"
    by (simp add: key_test_7 MemoryCacheRepo_def Get_def cached_def StoreWithoutTTL_def
        NewMemoryCache_def IsZero_def)
  have h2: "repo_Get (MemoryCacheRepo 1000) (''test'' @ '':'' @ decimal 7) (cached ''x'') =
     ((''x'', True, None), cached ''x'')"
    by (simp add: key_test_7 MemoryCacheRepo_def Get_def cached_def StoreWithoutTTL_def
        NewMemoryCache_def IsZero_def)
  have m1: "repo_Get (missing (MemoryCacheRepo 1000)) (''test'' @ '':'' @ decimal 7) (cached ''42'') =
     (([], False, None), cached ''42'')"
    by (simp add: missing_def NocacheRepo_Get_def)
  have m2: "repo_Get (missing (MemoryCacheRepo 1000)) (''test'' @ '':'' @ decimal 7) (cached ''x'') =
     (([], False, None), cached ''x'')"
    by (simp add: missing_def NocacheRepo_Get_def)
  have st: "repo_Store (missing (MemoryCacheRepo 1000)) = repo_Store (MemoryCacheRepo 1000)"
    and sw: "repo_StoreWithoutTTL (missing (MemoryCacheRepo 1000)) = repo_StoreWithoutTTL (MemoryCacheRepo 1000)"
    by (simp_all add: missing_def)
  have u1: "float_Unmarshal ''42'' = Inr (Num 42)"
    by (simp add: float_Unmarshal_def isDigit_def)
  have u2: "float_Unmarshal ''x'' = Inl (ErrorString ''invalid character'')"
    by (simp add: float_Unmarshal_def isDigit_def)
  note w1 = hit_skips_source [where fmtv = decimal and ident = 7 and Unmarshal = float_Unmarshal
          and data = "Num 42" and Marshal = float_Marshal and exp' = 60 and fnCacheable = fetch_inf
          and fnGetTtl = ttl_of, OF h1 m1 st sw]
  note w2 = hit_skips_source [where fmtv = decimal and ident = 7 and Unmarshal = float_Unmarshal
          and ue = "ErrorString ''invalid character''" and Marshal = float_Marshal and exp' = 60
          and fnCacheable = fetch_42 and fnGetTtl = ttl_of, OF h2 m2 st sw]
  from w2 u2 obtain rest where
    "GetFromCache float_Marshal float_Unmarshal decimal (missing (MemoryCacheRepo 1000)) 7 ''test'' 60 fetch_42 (cached ''x'') =
       (GetFromCache float_Marshal float_Unmarshal decimal (MemoryCacheRepo 1000) 7 ''test'' 60 fetch_42 (cached ''x''))
         \<lparr>calls := Call_Get (''test'' @ '':'' @ decimal 7) # Call_fnCacheable 7 # rest\<rparr>"
    by blast
  then have eq: "ret_data (GetFromCache float_Marshal float_Unmarshal decimal (MemoryCacheRepo 1000) 7 ''test'' 60 fetch_42 (cached ''x'')) =
       ret_data (GetFromCache float_Marshal float_Unmarshal decimal (missing (MemoryCacheRepo 1000)) 7 ''test'' 60 fetch_42 (cached ''x''))"
    by simp
  show ?thesis
    using w1 u1 h1 h2 eq by (simp add: u2 key_test_7)
qed

text \<open>
  The \<^verbatim>\<open>Get\<close> of each backend of the package reports \<open>found = false\<close> whenever it
  returns an error.
\<close>

lemma backend_Get_error_not_found:
  "RedisCache_Get rc key = (b, found, Some e) \<Longrightarrow> \<not> found"
  "MemcacheRepo_Get mc key = (b, found, Some e) \<Longrightarrow> \<not> found"
  "fst (Get now m key) = (b, found, Some e) \<Longrightarrow> \<not> found"
  "NocacheRepo_Get key = (b, found, Some e) \<Longrightarrow> \<not> found"
  by (auto simp add: RedisCache_Get_def MemcacheRepo_Get_def Get_def NocacheRepo_Get_def
      split: sum.splits if_splits option.splits)






text \<open>
  Claim C3, as amended. After a successful fetch of a non-nil value (the key was not found,
  or its bytes did not deserialize; \<open>pre\<close> is the calls made until then): in the
  fixed-TTL variant a negative TTL returns the value with no further call, so the value is
  neither serialized nor stored; when the value serializes, a zero TTL calls
  \<^verbatim>\<open>StoreWithoutTTL\<close> and a positive TTL calls \<^verbatim>\<open>Store\<close> with that TTL. In the dynamic
  variant the value is serialized first and the TTL is computed from the fetched value
  after that; when the value serializes, a negative TTL returns it without a store call, a
  zero TTL calls \<^verbatim>\<open>StoreWithoutTTL\<close> and a positive TTL calls \<^verbatim>\<open>Store\<close> with the
  computed TTL.
\<close>

theorem ttl_sign_decides_store:
  assumes get: "repo_Get repo (prefixKey @ '':'' @ fmtv ident) s = ((b, found, ge), s1)"
    and undecodable: "found \<longrightarrow> isl (Unmarshal b)"
    and src: "fnCacheable ident = (Some d, None)"
    and pre: "pre = Call_Get (prefixKey @ '':'' @ fmtv ident) # (if found then [Call_Unmarshal b] else [])"
  shows
    "(exp' < 0 \<longrightarrow>
        GetFromCache Marshal Unmarshal fmtv repo ident prefixKey exp' fnCacheable s =
          \<lparr>ret_data = Some d, ret_err = None, logged = None,
           calls = pre @ [Call_fnCacheable ident], backend = s1\<rparr>)
   \<and> (Marshal d = Inr bs \<and> exp' = 0 \<longrightarrow>
        ret_data (GetFromCache Marshal Unmarshal fmtv repo ident prefixKey exp' fnCacheable s) = Some d
      \<and> calls (GetFromCache Marshal Unmarshal fmtv repo ident prefixKey exp' fnCacheable s) =
          pre @ [Call_fnCacheable ident, Call_Marshal d,
                 Call_StoreWithoutTTL (prefixKey @ '':'' @ fmtv ident) bs]
      \<and> backend (GetFromCache Marshal Unmarshal fmtv repo ident prefixKey exp' fnCacheable s) =
          snd (repo_StoreWithoutTTL repo (prefixKey @ '':'' @ fmtv ident) bs s1))
   \<and> (Marshal d = Inr bs \<and> 0 < exp' \<longrightarrow>
        ret_data (GetFromCache Marshal Unmarshal fmtv repo ident prefixKey exp' fnCacheable s) = Some d
      \<and> calls (GetFromCache Marshal Unmarshal fmtv repo ident prefixKey exp' fnCacheable s) =
          pre @ [Call_fnCacheable ident, Call_Marshal d,
                 Call_Store (prefixKey @ '':'' @ fmtv ident) bs exp']
      \<and> backend (GetFromCache Marshal Unmarshal fmtv repo ident prefixKey exp' fnCacheable s) =
          snd (repo_Store repo (prefixKey @ '':'' @ fmtv ident) bs exp' s1))
   \<and> (Marshal d = Inr bs \<and> fnGetTtl d < 0 \<longrightarrow>
        GetFromCacheWithDynamicTTL Marshal Unmarshal fmtv repo ident prefixKey fnGetTtl fnCacheable s =
          \<lparr>ret_data = Some d, ret_err = None, logged = None,
           calls = pre @ [Call_fnCacheable ident, Call_Marshal d, Call_fnGetTtl d],
           backend = s1\<rparr>)
   \<and> (Marshal d = Inr bs \<and> fnGetTtl d = 0 \<longrightarrow>
        ret_data (GetFromCacheWithDynamicTTL Marshal Unmarshal fmtv repo ident prefixKey fnGetTtl fnCacheable s) = Some d
      \<and> calls (GetFromCacheWithDynamicTTL Marshal Unmarshal fmtv repo ident prefixKey fnGetTtl fnCacheable s) =
          pre @ [Call_fnCacheable ident, Call_Marshal d, Call_fnGetTtl d,
                 Call_StoreWithoutTTL (prefixKey @ '':'' @ fmtv ident) bs]
      \<and> backend (GetFromCacheWithDynamicTTL Marshal Unmarshal fmtv repo ident prefixKey fnGetTtl fnCacheable s) =
          snd (repo_StoreWithoutTTL repo (prefixKey @ '':'' @ fmtv ident) bs s1))
   \<and> (Marshal d = Inr bs \<and> 0 < fnGetTtl d \<longrightarrow>
        ret_data (GetFromCacheWithDynamicTTL Marshal Unmarshal fmtv repo ident prefixKey fnGetTtl fnCacheable s) = Some d
      \<and> calls (GetFromCacheWithDynamicTTL Marshal Unmarshal fmtv repo ident prefixKey fnGetTtl fnCacheable s) =
          pre @ [Call_fnCacheable ident, Call_Marshal d, Call_fnGetTtl d,
                 Call_Store (prefixKey @ '':'' @ fmtv ident) bs (fnGetTtl d)]
      \<and> backend (GetFromCacheWithDynamicTTL Marshal Unmarshal fmtv repo ident prefixKey fnGetTtl fnCacheable s) =
          snd (repo_Store repo (prefixKey @ '':'' @ fmtv ident) bs (fnGetTtl d) s1))"
proof -
  define key where "key = prefixKey @ '':'' @ fmtv ident"
  note get' = get [folded key_def]
  show ?thesis
    unfolding pre key_def [symmetric]
    by (simp add: wrapper_enters_source [where fmtv = fmtv and ident = ident
          and Unmarshal = Unmarshal, OF key_def get' undecodable]
        from_source_def from_source_dynamic_def src Let_def deferred_def split: prod.splits)
qed

text \<open>
  Claim C3 as stated fails: with a negative TTL the fixed-TTL variant returns a value that
  does not serialize, having made no call of the encoder, where the dynamic variant
  returns the error of the encoder.
\<close>

theorem negative_ttl_skips_marshal:
  "fetch_inf 7 = (Some PosInf, None)
   \<and> GetFromCache float_Marshal float_Unmarshal decimal NocacheRepo 7 ''test'' (- 1) fetch_inf () =
       \<lparr>ret_data = Some PosInf, ret_err = None, logged = None,
        calls = [Call_Get ''test:7'', Call_fnCacheable 7], backend = ()\<rparr>
   \<and> float_Marshal PosInf = Inl (ErrorString ''json: unsupported value: +Inf'')
   \<and> ttl_of PosInf = - 1
   \<and> GetFromCacheWithDynamicTTL float_Marshal float_Unmarshal decimal NocacheRepo 7 ''test'' ttl_of fetch_inf () =
       \<lparr>ret_data = None, ret_err = Some (ErrorString ''json: unsupported value: +Inf''),
        logged = Some [''key'' \<mapsto> ''test:7'', ''err_type'' \<mapsto> ''json.Marshal dataFromSource'',
                       ''err'' \<mapsto> ''json: unsupported value: +Inf''],
        calls = [Call_Get ''test:7'', Call_fnCacheable 7, Call_Marshal PosInf], backend = ()\<rparr>"
  by (simp add: GetFromCache_def GetFromCacheWithDynamicTTL_def from_source_def
      from_source_dynamic_def NocacheRepo_def NocacheRepo_Get_def fetch_inf_def Let_def
      key_test_7 deferred_def ttl_of_def)

text \<open>
  The theorem on the in-process backend, for a negative, a zero and a positive TTL after a
  miss, and for a positive TTL after bytes that do not deserialize.
\<close>

theorem ttl_sign_decides_store_witness:
  "repo_Get (MemoryCacheRepo 1000) (''test'' @ '':'' @ decimal 7) NewMemoryCache =
     (([], False, None), NewMemoryCache)
   \<and> fetch_42 7 = (Some (Num 42), None) \<and> float_Marshal (Num 42) = Inr ''42''
   \<and> calls (GetFromCache float_Marshal float_Unmarshal decimal (MemoryCacheRepo 1000) 7 ''test'' (- 5) fetch_42 NewMemoryCache) =
       [Call_Get ''test:7'', Call_fnCacheable 7]
   \<and> backend (GetFromCache float_Marshal float_Unmarshal decimal (MemoryCacheRepo 1000) 7 ''test'' (- 5) fetch_42 NewMemoryCache) =
       NewMemoryCache
   \<and> calls (GetFromCache float_Marshal float_Unmarshal decimal (MemoryCacheRepo 1000) 7 ''test'' 0 fetch_42 NewMemoryCache) =
       [Call_Get ''test:7'', Call_fnCacheable 7, Call_Marshal (Num 42), Call_StoreWithoutTTL ''test:7'' ''42'']
   \<and> items (backend (GetFromCache float_Marshal float_Unmarshal decimal (MemoryCacheRepo 1000) 7 ''test'' 0 fetch_42 NewMemoryCache)) ''test:7'' =
       Some \<lparr>val = ''42'', expiresAt = 0\<rparr>
   \<and> calls (GetFromCache float_Marshal float_Unmarshal decimal (MemoryCacheRepo 1000) 7 ''test'' 60 fetch_42 NewMemoryCache) =
       [Call_Get ''test:7'', Call_fnCacheable 7, Call_Marshal (Num 42), Call_Store ''test:7'' ''42'' 60]
   \<and> items (backend (GetFromCache float_Marshal float_Unmarshal decimal (MemoryCacheRepo 1000) 7 ''test'' 60 fetch_42 NewMemoryCache)) ''test:7'' =
       Some \<lparr>val = ''42'', expiresAt = 1060\<rparr>
   \<and> ttl_of (Num 42) = 42
   \<and> calls (GetFromCacheWithDynamicTTL float_Marshal float_Unmarshal decimal (MemoryCacheRepo 1000) 7 ''test'' ttl_of fetch_42 NewMemoryCache) =
       [Call_Get ''test:7'', Call_fnCacheable 7, Call_Marshal (Num 42), Call_fnGetTtl (Num 42),
        Call_Store ''test:7'' ''42'' 42]
   \<and> repo_Get (MemoryCacheRepo 1000) (''test'' @ '':'' @ decimal 7) (cached ''x'') =
     ((''x'', True, None), cached ''x'')
   \<and> isl (float_Unmarshal ''x'')
   \<and> calls (GetFromCache float_Marshal float_Unmarshal decimal (MemoryCacheRepo 1000) 7 ''test'' 60 fetch_42 (cached ''x'')) =
       [Call_Get ''test:7'', Call_Unmarshal ''x'', Call_fnCacheable 7, Call_Marshal (Num 42),
        Call_Store ''test:7'' ''42'' 60]"
proof -
  have h: "repo_Get (MemoryCacheRepo 1000) (''test'' @ '':'' @ decimal 7) NewMemoryCache =
     (([], False, None), NewMemoryCache)"
    by (simp add: MemoryCacheRepo_def Get_def NewMemoryCache_def)
  have h2: "repo_Get (MemoryCacheRepo 1000) (''test'' @ '':'' @ decimal 7) (cached ''x'') =
     ((''x'', True, None), cached ''x'')"
    by (simp add: key_test_7 MemoryCacheRepo_def Get_def cached_def StoreWithoutTTL_def
        NewMemoryCache_def IsZero_def)
  have u: "False \<longrightarrow> isl (float_Unmarshal [])"
    by simp
  have u2: "True \<longrightarrow> isl (float_Unmarshal ''x'')"
    by (simp add: float_Unmarshal_def isDigit_def)
  have f: "fetch_42 7 = (Some (Num 42), None)"
    by (simp add: fetch_42_def)
  have m: "float_Marshal (Num 42) = Inr ''42''"
    by (simp add: decimal.simps digit_def)
  have t: "ttl_of (Num 42) = 42"
    by (simp add: ttl_of_def)
  note w = ttl_sign_decides_store [where fmtv = decimal and ident = 7 and Unmarshal = float_Unmarshal
      and Marshal = float_Marshal and fnGetTtl = ttl_of and bs = "''42''"
      and fnCacheable = fetch_42, OF h u f refl]
  note w2 = ttl_sign_decides_store [where fmtv = decimal and ident = 7 and Unmarshal = float_Unmarshal
      and Marshal = float_Marshal and fnGetTtl = ttl_of and bs = "''42''"
      and fnCacheable = fetch_42 and exp' = 60, OF h2 u2 f refl]
  show ?thesis
    using w [where exp' = "- 5"] w [where exp' = 0] w [where exp' = 60] w2 h h2 u2 f m t
    by (simp add: key_test_7 MemoryCacheRepo_def Store_def StoreWithoutTTL_def NewMemoryCache_def
        Add_def)
qed

section \<open>The in-process backend: expiry\<close>

lemma Split_not_Nil [simp]: "Split s \<noteq> []"
  by (induction s) (auto split: list.splits)

lemma Split_empty_list_iff: "length (Split s) = 1 \<and> hd (Split s) = [] \<longleftrightarrow> s = []"
proof (cases s)
  case Nil
  then show ?thesis by simp
next
  case (Cons c cs)
  then show ?thesis
    by (cases "Split cs") (auto split: list.splits)
qed

lemma Get_expired:
  "items m key = Some item \<Longrightarrow> expiresAt item \<noteq> 0 \<Longrightarrow> expiresAt item < now \<Longrightarrow>
   Get now m key = (([], False, None), m\<lparr>items := (items m)(key := None)\<rparr>)"
  by (simp add: Get_def IsZero_def After_def)

lemma Get_no_expiry:
  "items m key = Some item \<Longrightarrow> expiresAt item = 0 \<Longrightarrow>
   Get now m key = ((val item, True, None), m)"
  by (simp add: Get_def IsZero_def)

text \<open>
  Claim C2. An access to a key whose expiry is in the past is to treat the entry as absent.
  \<^verbatim>\<open>Get\<close> does (\<open>Get_expired\<close>); the other operations read \<^verbatim>\<open>m.items[key]\<close> without
  the comparison. At the input of the repository's test of the counter
  (\<^verbatim>\<open>IncrementWithTTL\<close> with one millisecond, then \<^verbatim>\<open>Increment\<close> two milliseconds later),
  \<^verbatim>\<open>Get\<close> reports the key as not found, and \<^verbatim>\<open>Increment\<close> returns 2, having read the
  expired 1, where the test expects 1. In the same way \<^verbatim>\<open>LRange\<close> returns the elements of
  an expired list.
\<close>

theorem expired_counter_is_incremented:
  "fst (Get 2001000 (snd (IncrementWithTTL 1000 NewMemoryCache ''exp_counter'' 1000000)) ''exp_counter'') =
     ([], False, None)
   \<and> fst (Increment (snd (IncrementWithTTL 1000 NewMemoryCache ''exp_counter'' 1000000)) ''exp_counter'') =
     (2, None)
   \<and> LRange (snd (Store 1000 NewMemoryCache ''exp_list'' ''a,b'' 1000000)) ''exp_list'' 0 (- 1) =
     Inr [''a'', ''b'']
   \<and> fst (Get 2001000 (snd (Store 1000 NewMemoryCache ''exp_list'' ''a,b'' 1000000)) ''exp_list'') =
     ([], False, None)"
  by (simp add: Get_def Increment_def IncrementWithTTL_def NewMemoryCache_def Add_def IsZero_def
      After_def bytesToInt64_def Sscanf_d_def ParseInt_def isSpace_def isDigit_def
      int64ToBytes_def decimal.simps digit_def Store_def LRange_def slice_def Let_def
      word_sless_alt word_sle_eq)

section \<open>The in-process backend: keys by pattern\<close>

lemma KeysByPattern_loop_error:
  "\<exists>key \<in> set keys. isl (Match pattern key) \<Longrightarrow>
   isl (KeysByPattern_loop Match pattern keys matches)"
  by (induction keys arbitrary: matches) (auto split: sum.splits)

lemma KeysByPattern_loop_matches:
  "\<forall>key \<in> set keys. \<not> isl (Match pattern key) \<Longrightarrow>
   KeysByPattern_loop Match pattern keys matches =
     Inr (matches @ filter (\<lambda>key. Match pattern key = Inr True) keys)"
  by (induction keys arbitrary: matches) (auto split: sum.splits)

lemma KeysByPattern_matching_keys:
  assumes "range_order m keys" and "\<forall>key \<in> dom (items m). \<not> isl (Match pattern key)"
  shows "\<exists>ks. KeysByPattern Match keys m pattern = Inr ks \<and> distinct ks
     \<and> set ks = {key \<in> dom (items m). Match pattern key = Inr True}"
  using assms by (auto simp add: KeysByPattern_def range_order_def KeysByPattern_loop_matches)

lemma KeysByPattern_invalid_pattern:
  assumes "range_order m keys" and "\<exists>key \<in> dom (items m). isl (Match pattern key)"
  shows "isl (KeysByPattern Match keys m pattern)"
  using assms by (simp add: KeysByPattern_def range_order_def KeysByPattern_loop_error)

text \<open>
  Claim C9. On a cache with keys the loop asks the matcher for each key, so it returns the
  matching keys and fails when the matcher rejects the pattern
  (\<open>KeysByPattern_matching_keys\<close>, \<open>KeysByPattern_invalid_pattern\<close>). On the empty cache
  the loop does not run and the pattern is never given to the matcher: for the pattern
  \<^verbatim>\<open>[invalid\<close>, which the repository's test expects to be refused, the result is no keys
  and no error, whatever the matcher, also when the matcher refuses the pattern, which
  with one key stored is reported.
\<close>

theorem invalid_pattern_on_empty_cache:
  "range_order NewMemoryCache []
   \<and> KeysByPattern Match [] NewMemoryCache ''[invalid'' = Inr []
   \<and> KeysByPattern refusing [] NewMemoryCache ''[invalid'' = Inr []
   \<and> range_order (snd (StoreWithoutTTL NewMemoryCache ''test:1'' ''value'')) [''test:1'']
   \<and> KeysByPattern refusing [''test:1'']
         (snd (StoreWithoutTTL NewMemoryCache ''test:1'' ''value'')) ''[invalid'' =
       Inl (ErrorString ''invalid pattern: syntax error in pattern'')"
  by (simp add: range_order_def NewMemoryCache_def KeysByPattern_def StoreWithoutTTL_def
      refusing_def)

section \<open>The in-process backend: ranges\<close>

lemma sint_of_nat_64: "n < 2 ^ 63 \<Longrightarrow> sint (word_of_nat n :: int64) = int n"
  by (simp add: signed_of_nat signed_take_bit_int_eq_self)

lemma sint_add_64:
  "- (2 ^ 63) \<le> sint a + sint b \<Longrightarrow> sint a + sint b < 2 ^ 63 \<Longrightarrow>
   sint (a + b :: int64) = sint a + sint b"
  by (simp add: sint_word_ariths signed_take_bit_int_eq_self)

lemma sint_sub_64:
  "- (2 ^ 63) \<le> sint a - sint b \<Longrightarrow> sint a - sint b < 2 ^ 63 \<Longrightarrow>
   sint (a - b :: int64) = sint a - sint b"
  by (simp add: sint_word_ariths signed_take_bit_int_eq_self)


lemma sint_bounds_64: "- (2 ^ 63) \<le> sint (a :: int64) \<and> sint a < 2 ^ 63"
  using sint_range_size [of a] by (simp add: word_size)

lemma LRange_core:
  fixes start end' :: int64
  assumes pos: "0 < length values" and small: "length values < 2 ^ 63"
  shows "(let len = (word_of_nat (length values) :: int64);
              start = (if start <s 0
                       then (let s = len + start in if s <s 0 then 0 else s)
                       else start);
              end' = (if end' <s 0
                     then (let e = len + end' in if e <s 0 then 0 else e)
                     else end');
              end' = (if len <=s end' then len - 1 else end')
          in if end' <s start then Inr []
             else slice values (sint start) (sint (end' + 1)))
         = Inr (normalized_range values (sint start) (sint end'))"
proof -
  define L where "L = int (length values)"
  define len where "len = (word_of_nat (length values) :: int64)"
  define S where "S = sint start"
  define E where "E = sint end'"
  have L: "0 < L" "L < 2 ^ 63"
    using pos small by (simp_all add: L_def)
  have len: "sint len = L"
    using small by (simp add: len_def L_def sint_of_nat_64)
  have Sb: "- (2 ^ 63) \<le> S" "S < 2 ^ 63" and Eb: "- (2 ^ 63) \<le> E" "E < 2 ^ 63"
    using sint_bounds_64 [of start] sint_bounds_64 [of end'] by (simp_all add: S_def E_def)
  define s1 where "s1 = (if start <s 0 then (if len + start <s 0 then 0 else len + start) else start)"
  define e1 where "e1 = (if end' <s 0 then (if len + end' <s 0 then 0 else len + end') else end')"
  define e2 where "e2 = (if len <=s e1 then len - 1 else e1)"
  have ls: "S < 0 \<Longrightarrow> sint (len + start) = L + S"
    using L Sb by (simp add: sint_add_64 len S_def [symmetric])
  have le: "E < 0 \<Longrightarrow> sint (len + end') = L + E"
    using L Eb by (simp add: sint_add_64 len E_def [symmetric])
  have s1: "sint s1 = (if S < 0 then max 0 (L + S) else S)"
    using ls by (auto simp add: s1_def word_sless_alt S_def [symmetric])
  have e1: "sint e1 = (if E < 0 then max 0 (L + E) else E)"
    using le by (auto simp add: e1_def word_sless_alt E_def [symmetric])
  have lm: "sint (len - 1) = L - 1"
    using L by (simp add: sint_sub_64 len)
  have e2: "sint e2 = (if L \<le> sint e1 then L - 1 else sint e1)"
    using lm by (simp add: e2_def word_sle_eq len)
  have e2b: "0 \<le> sint e2" "sint e2 < L"
    using L Eb by (auto simp add: e2 e1)
  have e2p: "sint (e2 + 1) = sint e2 + 1"
    using e2b L by (simp add: sint_add_64)
  have s1b: "0 \<le> sint s1"
    using L Sb by (auto simp add: s1)
  have rhs: "normalized_range values S E =
      (if sint e2 < sint s1 then []
       else take (nat (sint e2 - sint s1 + 1)) (drop (nat (sint s1)) values))"
    using L by (auto simp add: normalized_range_def Let_def L_def [symmetric] e2 e1 s1)
  have sl: "\<not> sint e2 < sint s1 \<Longrightarrow>
      slice values (sint s1) (sint e2 + 1) =
      Inr (take (nat (sint e2 - sint s1 + 1)) (drop (nat (sint s1)) values))"
  proof -
    assume a: "\<not> sint e2 < sint s1"
    have "nat (sint e2 + 1) - nat (sint s1) = nat (sint e2 - sint s1 + 1)"
      using a s1b e2b by linarith
    then show ?thesis
      using a s1b e2b by (simp add: slice_def L_def)
  qed
  show ?thesis
    apply (unfold Let_def)
    apply (fold len_def)
    apply (fold s1_def)
    apply (fold e1_def)
    apply (fold e2_def)
    apply (fold S_def E_def)
    apply (simp add: word_sless_alt e2p rhs sl)
    done
qed

lemma normalized_range_Nil [simp]: "normalized_range [] start end' = []"
  by (simp add: normalized_range_def Let_def)

lemma LRange_absent: "items m key = None \<Longrightarrow> LRange m key start end' = Inr []"
  by (simp add: LRange_def)

lemma MemcacheRepo_LRange_absent:
  "client key = Inl ErrCacheMiss \<Longrightarrow> MemcacheRepo_LRange client key start end' = Inr []"
  by (simp add: MemcacheRepo_LRange_def)

lemma LRange_stored:
  assumes "items m key = Some item" and "length (Split (val item)) < 2 ^ 63"
  shows "LRange m key start end' =
     Inr (normalized_range (decode (val item)) (sint start) (sint end'))"
proof (cases "val item = []")
  case True
  with assms show ?thesis
    by (simp add: LRange_def decode_def)
next
  case False
  then have ne: "\<not> (length (Split (val item)) = 1 \<and> hd (Split (val item)) = [])"
    using Split_empty_list_iff [of "val item"] by blast
  have pos: "0 < length (Split (val item))"
    by simp
  show ?thesis
    using assms(1) ne False LRange_core [OF pos assms(2), of start end']
    by (auto simp add: LRange_def decode_def Let_def)
qed

lemma MemcacheRepo_LRange_stored:
  assumes "client key = Inr it" and "length (Split (Value it)) < 2 ^ 63"
  shows "MemcacheRepo_LRange client key start end' =
     Inr (normalized_range (decode (Value it)) (sint start) (sint end'))"
proof (cases "Value it = []")
  case True
  with assms show ?thesis
    by (simp add: MemcacheRepo_LRange_def decode_def)
next
  case False
  then have ne: "\<not> (length (Split (Value it)) = 1 \<and> hd (Split (Value it)) = [])"
    using Split_empty_list_iff [of "Value it"] by blast
  have pos: "0 < length (Split (Value it))"
    by simp
  show ?thesis
    using assms(1) ne False LRange_core [OF pos assms(2), of start end']
    by (auto simp add: MemcacheRepo_LRange_def decode_def Let_def)
qed

text \<open>
  Claim C7. For a key that is absent from the in-process backend and from the memcache
  server, or holds the same value in both, \<^verbatim>\<open>LRange\<close> of the in-process backend and
  \<^verbatim>\<open>LRange\<close> of the object-cache backend both return, without error, the range that the
  algorithm of the specification gives on the decoded elements and the indices as
  integers; so the two agree. The number of elements is below \<open>2 ^ 63\<close>, as the length of
  every Go slice is.
\<close>

theorem LRange_is_the_normalized_range:
  assumes "(items m key = None \<and> client key = Inl ErrCacheMiss)
       \<or> (\<exists>item it. items m key = Some item \<and> client key = Inr it \<and> Value it = val item
             \<and> length (Split (val item)) < 2 ^ 63)"
  shows "LRange m key start end' =
           Inr (normalized_range (stored_list m key) (sint start) (sint end'))
       \<and> MemcacheRepo_LRange client key start end' =
           Inr (normalized_range (stored_list m key) (sint start) (sint end'))
       \<and> MemcacheRepo_LRange client key start end' = LRange m key start end'"
  using assms
proof (elim disjE conjE exE)
  assume "items m key = None" and "client key = Inl ErrCacheMiss"
  then show ?thesis
    by (simp add: stored_list_def LRange_absent MemcacheRepo_LRange_absent)
next
  fix item it
  assume a: "items m key = Some item" "client key = Inr it" "Value it = val item"
    "length (Split (val item)) < 2 ^ 63"
  then show ?thesis
    using LRange_stored [of m key item start end']
      MemcacheRepo_LRange_stored [of client key it start end']
    by (simp add: stored_list_def)
qed

text \<open>The theorem on the list \<^verbatim>\<open>a,b,c,d\<close> and on an absent key, with the indices -3 and 2.\<close>

theorem LRange_is_the_normalized_range_witness:
  "items (cached ''a,b,c,d'') ''test:7'' = Some \<lparr>val = ''a,b,c,d'', expiresAt = 0\<rparr>
   \<and> memcached ''a,b,c,d'' ''test:7'' = Inr \<lparr>Key = ''test:7'', Value = ''a,b,c,d'', Expiration = 0\<rparr>
   \<and> length (Split ''a,b,c,d'') < 2 ^ 63
   \<and> LRange (cached ''a,b,c,d'') ''test:7'' (- 3) 2 = Inr [''b'', ''c'']
   \<and> MemcacheRepo_LRange (memcached ''a,b,c,d'') ''test:7'' (- 3) 2 = Inr [''b'', ''c'']
   \<and> normalized_range (stored_list (cached ''a,b,c,d'') ''test:7'') (- 3) 2 = [''b'', ''c'']
   \<and> items (cached ''a,b,c,d'') ''other'' = None
   \<and> memcached ''a,b,c,d'' ''other'' = Inl ErrCacheMiss
   \<and> LRange (cached ''a,b,c,d'') ''other'' (- 3) 2 = Inr []
   \<and> MemcacheRepo_LRange (memcached ''a,b,c,d'') ''other'' (- 3) 2 = Inr []"
proof -
  have i: "items (cached ''a,b,c,d'') ''test:7'' = Some \<lparr>val = ''a,b,c,d'', expiresAt = 0\<rparr>"
    by (simp add: cached_def StoreWithoutTTL_def NewMemoryCache_def)
  have c: "memcached ''a,b,c,d'' ''test:7'' =
      Inr \<lparr>Key = ''test:7'', Value = ''a,b,c,d'', Expiration = 0\<rparr>"
    by (simp add: memcached_def)
  have l: "length (Split ''a,b,c,d'') < 2 ^ 63"
    by simp
  have n: "normalized_range (stored_list (cached ''a,b,c,d'') ''test:7'') (- 3) 2 = [''b'', ''c'']"
    by (simp add: i stored_list_def normalized_range_def decode_def Let_def)
  have i': "items (cached ''a,b,c,d'') ''other'' = None"
    by (simp add: cached_def StoreWithoutTTL_def NewMemoryCache_def)
  have c': "memcached ''a,b,c,d'' ''other'' = Inl ErrCacheMiss"
    by (simp add: memcached_def)
  have p: "(items (cached ''a,b,c,d'') ''test:7'' = None \<and>
        memcached ''a,b,c,d'' ''test:7'' = Inl ErrCacheMiss)
     \<or> (\<exists>item it. items (cached ''a,b,c,d'') ''test:7'' = Some item \<and>
           memcached ''a,b,c,d'' ''test:7'' = Inr it \<and> Value it = val item \<and>
           length (Split (val item)) < 2 ^ 63)"
    using i c l by simp
  have a: "(items (cached ''a,b,c,d'') ''other'' = None \<and>
        memcached ''a,b,c,d'' ''other'' = Inl ErrCacheMiss)
     \<or> (\<exists>item it. items (cached ''a,b,c,d'') ''other'' = Some item \<and>
           memcached ''a,b,c,d'' ''other'' = Inr it \<and> Value it = val item \<and>
           length (Split (val item)) < 2 ^ 63)"
    using i' c' by simp
  have e: "stored_list (cached ''a,b,c,d'') ''other'' = []"
    by (simp add: stored_list_def i')
  show ?thesis
    using LRange_is_the_normalized_range [where client = "memcached ''a,b,c,d''"
        and start = "- 3" and end' = 2, OF p]
      LRange_is_the_normalized_range [where client = "memcached ''a,b,c,d''"
        and start = "- 3" and end' = 2, OF a] i c l n i' c' e
    by simp
qed

section \<open>The in-process backend: pushes\<close>

lemma Split_no_comma: "CHR '','' \<notin> set x \<Longrightarrow> Split x = [x]"
  by (induction x) auto

lemma Split_append_comma: "CHR '','' \<notin> set x \<Longrightarrow> Split (x @ CHR '','' # r) = x # Split r"
  by (induction x) auto

lemma Split_Join:
  "xs \<noteq> [] \<Longrightarrow> \<forall>x \<in> set xs. CHR '','' \<notin> set x \<Longrightarrow> Split (Join xs) = xs"
proof (induction xs rule: Join.induct)
  case 1
  then show ?case by simp
next
  case (2 x)
  then show ?case by (simp add: Split_no_comma)
next
  case (3 x y ys)
  then show ?case by (simp add: Split_append_comma)
qed

lemma LPush_absent:
  "items m key = None \<Longrightarrow>
   items (snd (LPush m key v)) key = Some \<lparr>val = v, expiresAt = 0\<rparr>"
  by (simp add: LPush_def)

lemma LPush_stored:
  assumes "items m key = Some item" and "val item = Join xs" and "xs \<noteq> []" and "xs \<noteq> [ [] ]"
    and "\<forall>x \<in> set xs. CHR '','' \<notin> set x"
  shows "items (snd (LPush m key v)) key = Some \<lparr>val = Join (v # xs), expiresAt = 0\<rparr>"
proof -
  have s: "Split (val item) = xs"
    using assms by (simp add: Split_Join)
  have "\<not> (length xs = 1 \<and> hd xs = [])"
    using assms(3,4) by (cases xs) auto
  then show ?thesis
    using assms(1) s by (auto simp add: LPush_def Let_def)
qed

lemma LPush_all_stored:
  assumes "items m key = Some item" and "val item = Join xs" and "xs \<noteq> []" and "xs \<noteq> [ [] ]"
    and "\<forall>x \<in> set xs. CHR '','' \<notin> set x" and "\<forall>v \<in> set vs. CHR '','' \<notin> set v"
  shows "items (LPush_all m key vs) key = Some \<lparr>val = Join (rev vs @ xs), expiresAt = 0\<rparr>
         \<or> (vs = [] \<and> items (LPush_all m key vs) key = Some item)"
  using assms
proof (induction vs arbitrary: m item xs)
  case Nil
  then show ?case by simp
next
  case (Cons v vs)
  have st: "items (snd (LPush m key v)) key = Some \<lparr>val = Join (v # xs), expiresAt = 0\<rparr>"
    using LPush_stored [OF Cons.prems(1-5)] .
  have ne: "v # xs \<noteq> [ [] ]"
    using Cons.prems(3) by simp
  have cf: "\<forall>x \<in> set (v # xs). CHR '','' \<notin> set x"
    using Cons.prems(5,6) by simp
  have cv: "\<forall>v \<in> set vs. CHR '','' \<notin> set v"
    using Cons.prems(6) by simp
  from Cons.IH [OF st _ _ ne cf cv]
  show ?case by auto
qed

lemma LPush_all_from_absent:
  assumes "items m key = None" and "vs \<noteq> []" and "hd vs \<noteq> []"
    and "\<forall>v \<in> set vs. CHR '','' \<notin> set v"
  shows "items (LPush_all m key vs) key = Some \<lparr>val = Join (rev vs), expiresAt = 0\<rparr>"
proof -
  obtain v ws where vs: "vs = v # ws"
    using assms(2) by (cases vs) auto
  have st: "items (snd (LPush m key v)) key = Some \<lparr>val = Join [v], expiresAt = 0\<rparr>"
    using LPush_absent [OF assms(1)] by simp
  have ne: "[v] \<noteq> [ [] ]"
    using assms(3) vs by simp
  have "items (LPush_all (snd (LPush m key v)) key ws) key =
          Some \<lparr>val = Join (rev ws @ [v]), expiresAt = 0\<rparr>
        \<or> (ws = [] \<and> items (LPush_all (snd (LPush m key v)) key ws) key =
              Some \<lparr>val = Join [v], expiresAt = 0\<rparr>)"
    using LPush_all_stored [OF st _ _ ne, of ws] assms(4) vs by simp
  then show ?thesis
    using vs by auto
qed

lemma normalized_range_all:
  "normalized_range xs 0 (- 1) = xs"
  by (cases xs) (simp_all add: normalized_range_def Let_def)

lemma comma_free_not_Nil:
  "xs \<noteq> [] \<Longrightarrow> xs \<noteq> [ [] ] \<Longrightarrow> \<forall>x \<in> set xs. CHR '','' \<notin> set x \<Longrightarrow> Join xs \<noteq> []"
  by (induction xs rule: Join.induct) auto

text \<open>
  Claim C6, as amended. On a key that starts absent, after a sequence of \<^verbatim>\<open>LPush\<close> calls
  whose values contain no comma and whose first value is not the empty string (fewer than
  \<open>2 ^ 63\<close> calls, as a Go slice holds), \<^verbatim>\<open>LRange(k, 0, -1)\<close> returns exactly the pushed
  values, the most recently pushed first.
\<close>

theorem LRange_after_LPush_all:
  assumes "items m key = None"
    and "\<forall>v \<in> set vs. CHR '','' \<notin> set v"
    and "vs \<noteq> [] \<longrightarrow> hd vs \<noteq> []"
    and "length vs < 2 ^ 63"
  shows "LRange (LPush_all m key vs) key 0 (- 1) = Inr (rev vs)"
proof (cases "vs = []")
  case True
  with assms(1) show ?thesis
    by (simp add: LRange_absent)
next
  case False
  then have hd: "hd vs \<noteq> []"
    using assms(3) by simp
  have st: "items (LPush_all m key vs) key = Some \<lparr>val = Join (rev vs), expiresAt = 0\<rparr>"
    using LPush_all_from_absent [OF assms(1) False hd assms(2)] .
  have cf: "\<forall>x \<in> set (rev vs). CHR '','' \<notin> set x"
    using assms(2) by simp
  have ne: "rev vs \<noteq> []"
    using False by simp
  have n1: "rev vs \<noteq> [ [] ]"
    using False hd by (cases vs) auto
  have sp: "Split (Join (rev vs)) = rev vs"
    using Split_Join [OF ne cf] .
  have jn: "Join (rev vs) \<noteq> []"
    using comma_free_not_Nil [OF ne n1 cf] .
  have len: "length (Split (val \<lparr>val = Join (rev vs), expiresAt = 0\<rparr>)) < 2 ^ 63"
    using assms(4) sp by simp
  show ?thesis
    using LRange_stored [OF st len, of 0 "- 1"] sp jn
    by (simp add: decode_def normalized_range_all)
qed

text \<open>
  Claim C6 as stated fails: a pushed value with a comma comes back as two elements, and a
  first pushed value that is the empty string is lost, the stored empty value being the
  empty list.
\<close>

theorem LPush_of_a_comma_is_split:
  "items NewMemoryCache ''k'' = None
   \<and> LRange (LPush_all NewMemoryCache ''k'' [''a,b'']) ''k'' 0 (- 1) = Inr [''a'', ''b'']
   \<and> LRange (LPush_all NewMemoryCache ''k'' ['''']) ''k'' 0 (- 1) = Inr []
   \<and> LRange (LPush_all NewMemoryCache ''k'' ['''', ''a'']) ''k'' 0 (- 1) = Inr [''a'']"
  by (simp add: NewMemoryCache_def LPush_def LRange_def slice_def Let_def
      word_sless_alt word_sle_eq)

text \<open>The theorem at the example of the specification: push \<^verbatim>\<open>a\<close>, then \<^verbatim>\<open>b\<close>.\<close>

theorem LRange_after_LPush_all_witness:
  "items NewMemoryCache ''k'' = None
   \<and> CHR '','' \<notin> set ''a'' \<and> CHR '','' \<notin> set ''b''
   \<and> hd [''a'', ''b''] \<noteq> []
   \<and> length [''a'', ''b''] < 2 ^ 63
   \<and> LRange (snd (LPush (snd (LPush NewMemoryCache ''k'' ''a'')) ''k'' ''b'')) ''k'' 0 (- 1) =
       Inr [''b'', ''a'']"
proof -
  have a: "items NewMemoryCache ''k'' = None"
    by (simp add: NewMemoryCache_def)
  have b: "\<forall>v \<in> set [''a'', ''b'']. CHR '','' \<notin> set v"
    by simp
  have c: "[''a'', ''b''] \<noteq> [] \<longrightarrow> hd [''a'', ''b''] \<noteq> []"
    by simp
  have d: "length [''a'', ''b''] < 2 ^ 63"
    by simp
  show ?thesis
    using LRange_after_LPush_all [OF a b c d] a
    by simp
qed

section \<open>The in-process backend: removals\<close>



lemma LRem_last_none:
  "sint count \<le> sint removed \<Longrightarrow> LRem_last count t vs removed result = rev vs @ result"
  by (induction vs arbitrary: result) (simp_all add: word_sless_alt)







text \<open>
  For the least \<^verbatim>\<open>int64\<close> the statement \<^verbatim>\<open>count = -count\<close> wraps around to the same
  negative number, no \<^verbatim>\<open>removed < count\<close> holds and nothing is removed: on the list
  \<^verbatim>\<open>a,b,a\<close> the value \<^verbatim>\<open>a\<close> stays twice, where the removal of the last \<open>2 ^ 63\<close>
  occurrences leaves \<^verbatim>\<open>b\<close>, as the code itself does for the count one greater.
\<close>

lemma LRem_with_the_least_count_removes_nothing:
  "items (cached ''a,b,a'') ''test:7'' = Some \<lparr>val = ''a,b,a'', expiresAt = 0\<rparr>
   \<and> sint (- 9223372036854775808 :: int64) = - (2 ^ 63)
   \<and> items (snd (LRem (cached ''a,b,a'') ''test:7'' (- 9223372036854775808) ''a'')) ''test:7'' =
       Some \<lparr>val = ''a,b,a'', expiresAt = 0\<rparr>
   \<and> remove_last (2 ^ 63) ''a'' [''a'', ''b'', ''a''] = [''b'']
   \<and> items (snd (LRem (cached ''a,b,a'') ''test:7'' (- 9223372036854775807) ''a'')) ''test:7'' =
       Some \<lparr>val = ''b'', expiresAt = 0\<rparr>"
  by (simp add: cached_def StoreWithoutTTL_def NewMemoryCache_def LRem_def Let_def word_sless_alt
      remove_last_def)

section \<open>The in-process backend: list writes and the expiry\<close>

lemma LPush_item:
  "\<exists>bs. items (snd (LPush m key v)) key = Some \<lparr>val = bs, expiresAt = 0\<rparr>"
  by (simp add: LPush_def Let_def)

lemma LTrim_item:
  assumes "items m key = Some old" and "length (Split (val old)) < 2 ^ 63"
    and "items (snd (LTrim m key start end')) key = Some item"
  shows "expiresAt item = 0"
  using assms(3) LRange_stored [OF assms(1,2), of start end']
  by (auto simp add: LTrim_def split: if_splits)

lemma LTrim_no_error:
  assumes "\<And>old. items m key = Some old \<Longrightarrow> length (Split (val old)) < 2 ^ 63"
  shows "fst (LTrim m key start end') = None"
proof (cases "items m key")
  case None
  then show ?thesis
    by (simp add: LTrim_def LRange_absent)
next
  case (Some a)
  then show ?thesis
    using assms [of a] LRange_stored [of m key a start end']
    by (simp add: LTrim_def)
qed

lemma LRem_item:
  assumes "items m key = Some old" and "val old \<noteq> []"
    and "items (snd (LRem m key count v)) key = Some item"
  shows "expiresAt item = 0"
proof -
  have "\<not> (length (Split (val old)) = 1 \<and> hd (Split (val old)) = [])"
    using assms(2) Split_empty_list_iff [of "val old"] by blast
  then show ?thesis
    using assms(1,3) by (auto simp add: LRem_def Let_def split: if_splits)
qed

text \<open>
  Claim C10, as amended. After an \<^verbatim>\<open>LPush\<close>, after an \<^verbatim>\<open>LTrim\<close> of a stored list, and
  after an \<^verbatim>\<open>LRem\<close> on a key whose stored value was not the empty string, the entry of the
  key, when the key is still present, has no expiry: whatever TTL the key had is erased,
  and \<^verbatim>\<open>Get\<close> finds the entry at every later time.
\<close>

theorem list_writes_clear_the_expiry:
  assumes "m' = snd (LPush m key v)
       \<or> (m' = snd (LTrim m key start end') \<and>
           (\<exists>old. items m key = Some old \<and> length (Split (val old)) < 2 ^ 63))
       \<or> (m' = snd (LRem m key count v) \<and> (\<exists>old. items m key = Some old \<and> val old \<noteq> []))"
    and "items m' key = Some item"
  shows "expiresAt item = 0 \<and> (\<forall>now. Get now m' key = ((val item, True, None), m'))"
proof -
  have "expiresAt item = 0"
    using assms LPush_item [of m key v] LTrim_item [of m key _ start end' item]
      LRem_item [of m key _ count v item]
    by auto
  then show ?thesis
    using assms(2) by (simp add: Get_no_expiry)
qed

text \<open>
  Claim C10 as stated fails: \<^verbatim>\<open>LRem\<close> on a key whose stored value is the empty string
  returns before it writes, so the key stays with the TTL that \<^verbatim>\<open>Store\<close> gave it and
  expires.
\<close>

theorem LRem_keeps_the_expiry_of_an_empty_value:
  "items (snd (Store 1000 NewMemoryCache ''k'' [] 60)) ''k'' = Some \<lparr>val = [], expiresAt = 1060\<rparr>
   \<and> items (snd (LRem (snd (Store 1000 NewMemoryCache ''k'' [] 60)) ''k'' 0 ''a'')) ''k'' =
       Some \<lparr>val = [], expiresAt = 1060\<rparr>
   \<and> fst (Get 2000 (snd (LRem (snd (Store 1000 NewMemoryCache ''k'' [] 60)) ''k'' 0 ''a'')) ''k'') =
       ([], False, None)"
  by (simp add: Store_def NewMemoryCache_def Add_def LRem_def Get_def IsZero_def After_def)

text \<open>The theorem on a list stored with a TTL, for each of the three operations.\<close>

theorem list_writes_clear_the_expiry_witness:
  "items (snd (Store 1000 NewMemoryCache ''k'' ''a,b'' 60)) ''k'' = Some \<lparr>val = ''a,b'', expiresAt = 1060\<rparr>
   \<and> length (Split ''a,b'') < 2 ^ 63
   \<and> items (snd (LPush (snd (Store 1000 NewMemoryCache ''k'' ''a,b'' 60)) ''k'' ''c'')) ''k'' =
       Some \<lparr>val = ''c,a,b'', expiresAt = 0\<rparr>
   \<and> fst (Get 2000 (snd (LPush (snd (Store 1000 NewMemoryCache ''k'' ''a,b'' 60)) ''k'' ''c'')) ''k'') =
       (''c,a,b'', True, None)
   \<and> items (snd (LTrim (snd (Store 1000 NewMemoryCache ''k'' ''a,b'' 60)) ''k'' 0 0)) ''k'' =
       Some \<lparr>val = ''a'', expiresAt = 0\<rparr>
   \<and> fst (Get 2000 (snd (LTrim (snd (Store 1000 NewMemoryCache ''k'' ''a,b'' 60)) ''k'' 0 0)) ''k'') =
       (''a'', True, None)
   \<and> items (snd (LRem (snd (Store 1000 NewMemoryCache ''k'' ''a,b'' 60)) ''k'' 1 ''a'')) ''k'' =
       Some \<lparr>val = ''b'', expiresAt = 0\<rparr>
   \<and> fst (Get 2000 (snd (LRem (snd (Store 1000 NewMemoryCache ''k'' ''a,b'' 60)) ''k'' 1 ''a'')) ''k'') =
       (''b'', True, None)"
proof -
  define m where "m = snd (Store 1000 NewMemoryCache ''k'' ''a,b'' 60)"
  have i: "items m ''k'' = Some \<lparr>val = ''a,b'', expiresAt = 1060\<rparr>"
    by (simp add: m_def Store_def NewMemoryCache_def Add_def)
  have l: "length (Split ''a,b'') < 2 ^ 63"
    by simp
  have p: "items (snd (LPush m ''k'' ''c'')) ''k'' = Some \<lparr>val = ''c,a,b'', expiresAt = 0\<rparr>"
    using i by (simp add: LPush_def Let_def)
  have t: "items (snd (LTrim m ''k'' 0 0)) ''k'' = Some \<lparr>val = ''a'', expiresAt = 0\<rparr>"
    using i by (simp add: LTrim_def LRange_def slice_def Let_def word_sless_alt word_sle_eq)
  have r: "items (snd (LRem m ''k'' 1 ''a'')) ''k'' = Some \<lparr>val = ''b'', expiresAt = 0\<rparr>"
    using i by (simp add: LRem_def Let_def word_sless_alt)
  have h2: "snd (LTrim m ''k'' 0 0) = snd (LTrim m ''k'' 0 0) \<and>
      (\<exists>old. items m ''k'' = Some old \<and> length (Split (val old)) < 2 ^ 63)"
    using i by simp
  have h3: "snd (LRem m ''k'' 1 ''a'') = snd (LRem m ''k'' 1 ''a'') \<and>
      (\<exists>old. items m ''k'' = Some old \<and> val old \<noteq> [])"
    using i by simp
  have w1: "\<forall>now. Get now (snd (LPush m ''k'' ''c'')) ''k'' =
      ((''c,a,b'', True, None), snd (LPush m ''k'' ''c''))"
    using list_writes_clear_the_expiry [where m' = "snd (LPush m ''k'' ''c'')" and m = m
        and key = "''k''" and v = "''c''", OF _ p]
    by simp
  have w2: "\<forall>now. Get now (snd (LTrim m ''k'' 0 0)) ''k'' =
      ((''a'', True, None), snd (LTrim m ''k'' 0 0))"
    using list_writes_clear_the_expiry [where m' = "snd (LTrim m ''k'' 0 0)" and m = m
        and key = "''k''" and start = 0 and end' = 0, OF _ t] h2
    by simp
  have w3: "\<forall>now. Get now (snd (LRem m ''k'' 1 ''a'')) ''k'' =
      ((''b'', True, None), snd (LRem m ''k'' 1 ''a''))"
    using list_writes_clear_the_expiry [where m' = "snd (LRem m ''k'' 1 ''a'')" and m = m
        and key = "''k''" and count = 1 and v = "''a''", OF _ r] h3
    by simp
  show ?thesis
    using i l p t r w1 w2 w3 unfolding m_def [symmetric] by simp
qed

end
